theory Spec2Isabelle
  imports Main
begin

section \<open>The feed list store of feed-reader (package feedlist)\<close>

text \<open>
  A shallow embedding of \<^verbatim>\<open>src/feedlist/feed_list.go\<close>. The store keeps the
  user-added feeds as one serialised value under the key \<^verbatim>\<open>all\<close> of the bucket
  \<^verbatim>\<open>feedlist\<close> of a bolt database, and merges them with a hard-coded list.

  Three libraries the package calls are not part of the repository and appear here as
  follows.
  \<^item> \<^verbatim>\<open>bolt\<close>: the database is open, a map from bucket names to buckets, a bucket
    a map from keys to values. A read transaction runs its closure on the database; a
    write transaction commits what its closure returns, and leaves the database as it
    was when it fails. Whether the write of a transaction goes through is an argument
    of the model (\<open>putOutcome\<close>: the error bolt reports for it, if any).
  \<^item> \<^verbatim>\<open>encoding/json\<close>: \<^verbatim>\<open>json.Marshal\<close> and \<^verbatim>\<open>json.Unmarshal\<close> are
    arguments of every operation that calls them. Where a result is evaluated, they are
    a serialiser that, as \<^verbatim>\<open>encoding/json\<close> does, coerces every string it writes
    to valid UTF-8.
  \<^item> \<^verbatim>\<open>uuid\<close>: the string \<^verbatim>\<open>uuid.NewString()\<close> returns is an argument of
    \<open>Add\<close>.
\<close>

subsection \<open>Data\<close>

type_synonym bytes = string

record Feed =
  ID :: string
  Title :: string
  Description :: string
  URL :: string
  ImageURL :: string
  Category :: string

datatype error =
    ErrorInitializingDB
  | ErrorUnconfiguredBucket
  | ErrorStoreFeedListCorrupted
  | ErrorFeedNotFound
  | ExternalError string

text \<open>A Go slice is either \<^verbatim>\<open>nil\<close> or holds a sequence of elements.\<close>

datatype 'a slice = NilSlice | Slice "'a list"

fun elems :: "'a slice \<Rightarrow> 'a list" where
  "elems NilSlice = []"
| "elems (Slice xs) = xs"

definition feedListBucket :: bytes where
  "feedListBucket = ''feedlist''"

definition allFeedsBucketKey :: bytes where
  "allFeedsBucketKey = ''all''"

definition defaultFeedsList :: "Feed list" where
  "defaultFeedsList =
    [ \<lparr> ID = ''b1031651-411c-40bb-b269-d247794dfd59'',
        Title = ''BBC News - UK'',
        Description = ''BBC News - UK'',
        URL = ''http://feeds.bbci.co.uk/news/uk/rss.xml'',
        ImageURL = ''https://news.bbcimg.co.uk/nol/shared/img/bbc_news_120x60.gif'',
        Category = '''' \<rparr>,
      \<lparr> ID = ''c2970c84-37c8-4ec1-8861-4b5a91ebff0d'',
        Title = ''BBC News - Technology'',
        Description = ''BBC News - Technology'',
        URL = ''http://feeds.bbci.co.uk/news/technology/rss.xml'',
        ImageURL = ''https://news.bbcimg.co.uk/nol/shared/img/bbc_news_120x60.gif'',
        Category = '''' \<rparr>,
      \<lparr> ID = ''28059396-5113-46ed-b76b-6d482a3bbcf3'',
        Title = ''UK News - The latest headlines from the UK | Sky News'',
        Description = ''Expert comment and analysis on the latest UK news, with headlines from England, Scotland, Northern Ireland and Wales.'',
        URL = ''http://feeds.skynews.com/feeds/rss/uk.xml'',
        ImageURL = ''http://feeds.skynews.com/images/web/logo/skynews_rss.png'',
        Category = ''Sky News'' \<rparr>,
      \<lparr> ID = ''a2370e4f-0e7f-4844-83cb-b54c02b0bf1f'',
        Title = ''Tech News - Latest Technology and Gadget News | Sky News'',
        Description = ''Sky News technology provides you with all the latest tech and gadget news, game reviews, Internet and web news across the globe. Visit us today.'',
        URL = ''http://feeds.skynews.com/feeds/rss/technology.xml'',
        ImageURL = ''http://feeds.skynews.com/images/web/logo/skynews_rss.png'',
        Category = ''Sky News'' \<rparr> ]"

subsection \<open>The bolt database\<close>

type_synonym bucket = "bytes \<rightharpoonup> bytes"

type_synonym DB = "bytes \<rightharpoonup> bucket"

text \<open>\<^verbatim>\<open>tx.Bucket(name)\<close>: the bucket, or \<^verbatim>\<open>nil\<close> (here \<open>None\<close>).\<close>

definition Bucket :: "DB \<Rightarrow> bytes \<Rightarrow> bucket option" where
  "Bucket tx name = tx name"

text \<open>
  \<^verbatim>\<open>bucket.Get(key)\<close>: the stored value, or \<^verbatim>\<open>nil\<close> when the key is absent. The
  package only takes the length of the result and hands a result of positive length to
  \<^verbatim>\<open>json.Unmarshal\<close>, so \<^verbatim>\<open>nil\<close> is the empty byte sequence here.
\<close>

definition Get :: "bucket \<Rightarrow> bytes \<Rightarrow> bytes" where
  "Get b k = (case b k of None \<Rightarrow> [] | Some v \<Rightarrow> v)"

text \<open>
  \<^verbatim>\<open>bucket.Put(key, v)\<close> inside a write transaction on the bucket \<open>name\<close>:
  \<open>outcome\<close> is the error bolt reports for this write, if any.
\<close>

definition Put :: "error option \<Rightarrow> DB \<Rightarrow> bytes \<Rightarrow> bucket \<Rightarrow> bytes \<Rightarrow> bytes \<Rightarrow> error + DB" where
  "Put outcome tx name b k v =
    (case outcome of
       Some err \<Rightarrow> Inl err
     | None \<Rightarrow> Inr (tx(name \<mapsto> b(k \<mapsto> v))))"

text \<open>\<^verbatim>\<open>tx.CreateBucketIfNotExists(name)\<close>.\<close>

definition CreateBucketIfNotExists :: "error option \<Rightarrow> DB \<Rightarrow> bytes \<Rightarrow> error + DB" where
  "CreateBucketIfNotExists outcome tx name =
    (case outcome of
       Some err \<Rightarrow> Inl err
     | None \<Rightarrow> (case tx name of None \<Rightarrow> Inr (tx(name \<mapsto> Map.empty)) | Some b \<Rightarrow> Inr tx))"

text \<open>\<^verbatim>\<open>db.View(fn)\<close>: the closure reads the database and returns an error or what it read.\<close>

definition View :: "(DB \<Rightarrow> error + 'a) \<Rightarrow> DB \<Rightarrow> error + 'a" where
  "View fn db = fn db"

text \<open>
  \<^verbatim>\<open>db.Update(fn)\<close>: the error of the closure, if any, and the database afterwards;
  an error rolls the transaction back.
\<close>

definition Update :: "(DB \<Rightarrow> error + DB) \<Rightarrow> DB \<Rightarrow> error option \<times> DB" where
  "Update fn db = (case fn db of Inl err \<Rightarrow> (Some err, db) | Inr tx \<Rightarrow> (None, tx))"

subsection \<open>The store\<close>

text \<open>
  \<^verbatim>\<open>init\<close>: creates the bucket when it is missing. \<open>updateOutcome\<close> is the error
  with which \<^verbatim>\<open>db.Update\<close> itself fails, if it does (a read-only database, say):
  \<^verbatim>\<open>init\<close> passes it on as it is, and only an error of
  \<^verbatim>\<open>CreateBucketIfNotExists\<close> becomes \<open>ErrorInitializingDB\<close>.
\<close>

definition init :: "error option \<Rightarrow> error option \<Rightarrow> DB \<Rightarrow> error option \<times> DB" where
  "init updateOutcome createOutcome db =
    (case updateOutcome of
       Some err \<Rightarrow> (Some err, db)
     | None \<Rightarrow>
        Update (\<lambda>tx. case CreateBucketIfNotExists createOutcome tx feedListBucket of
                       Inl err \<Rightarrow> Inl ErrorInitializingDB
                     | Inr tx' \<Rightarrow> Inr tx') db)"

text \<open>\<^verbatim>\<open>listStored\<close> (lines 116-144).\<close>

definition listStored :: "(bytes \<Rightarrow> Feed slice option) \<Rightarrow> DB \<Rightarrow> error + Feed slice" where
  "listStored json_Unmarshal db =
    (case View (\<lambda>tx. case Bucket tx feedListBucket of
                       None \<Rightarrow> Inl ErrorUnconfiguredBucket
                     | Some bucket \<Rightarrow> Inr (Get bucket allFeedsBucketKey)) db of
       Inl err \<Rightarrow> Inl err
     | Inr rawFeedList \<Rightarrow>
         if length rawFeedList = 0 then Inr (Slice [])
         else (case json_Unmarshal rawFeedList of
                 None \<Rightarrow> Inl ErrorStoreFeedListCorrupted
               | Some feedList \<Rightarrow> Inr feedList))"

text \<open>\<^verbatim>\<open>ListAll\<close> (lines 103-114).\<close>

definition ListAll :: "(bytes \<Rightarrow> Feed slice option) \<Rightarrow> DB \<Rightarrow> error + Feed list" where
  "ListAll json_Unmarshal db =
    (case listStored json_Unmarshal db of
       Inl err \<Rightarrow> Inl err
     | Inr storedFeedList \<Rightarrow>
         if storedFeedList = NilSlice then Inr defaultFeedsList
         else Inr (defaultFeedsList @ elems storedFeedList))"

text \<open>
  The two loops of \<^verbatim>\<open>Add\<close> (lines 161-175): the first feed of the list with the
  given URL, if any.
\<close>

fun findURL :: "string \<Rightarrow> Feed list \<Rightarrow> Feed option" where
  "findURL url [] = None"
| "findURL url (existingFeed # rest) =
    (if URL existingFeed = url then Some existingFeed else findURL url rest)"

text \<open>
  \<^verbatim>\<open>Add\<close> (lines 154-197): what it returns, and the database afterwards.
  \<open>uuid_NewString\<close> is the identifier generated for this call.
\<close>

definition Add ::
  "(Feed list \<Rightarrow> error + bytes) \<Rightarrow> (bytes \<Rightarrow> Feed slice option) \<Rightarrow> string \<Rightarrow> error option
     \<Rightarrow> Feed \<Rightarrow> DB \<Rightarrow> (error + string) \<times> DB" where
  "Add json_Marshal json_Unmarshal uuid_NewString putOutcome feed0 db =
    (let feed = feed0\<lparr>ID := uuid_NewString\<rparr> in
     case listStored json_Unmarshal db of
       Inl err \<Rightarrow> (Inl err, db)
     | Inr existingFeeds \<Rightarrow>
        (case findURL (URL feed) (elems existingFeeds) of
           Some existingFeed \<Rightarrow> (Inr (ID existingFeed), db)
         | None \<Rightarrow>
            (case findURL (URL feed) defaultFeedsList of
               Some existingFeed \<Rightarrow> (Inr (ID existingFeed), db)
             | None \<Rightarrow>
                (case json_Marshal (elems existingFeeds @ [feed]) of
                   Inl err \<Rightarrow> (Inl err, db)
                 | Inr rawFeed \<Rightarrow>
                    (case Update (\<lambda>tx. case Bucket tx feedListBucket of
                                         None \<Rightarrow> Inl ErrorUnconfiguredBucket
                                       | Some bucket \<Rightarrow>
                                           Put putOutcome tx feedListBucket bucket
                                             allFeedsBucketKey rawFeed) db of
                       (Some err, db') \<Rightarrow> (Inl err, db')
                     | (None, db') \<Rightarrow> (Inr (ID feed), db'))))))"

text \<open>The loop of \<^verbatim>\<open>GetByID\<close> (lines 206-211).\<close>

fun findID :: "string \<Rightarrow> Feed list \<Rightarrow> Feed option" where
  "findID i [] = None"
| "findID i (feed # rest) = (if ID feed = i then Some feed else findID i rest)"

text \<open>\<^verbatim>\<open>GetByID\<close> (lines 200-214).\<close>

definition GetByID :: "(bytes \<Rightarrow> Feed slice option) \<Rightarrow> string \<Rightarrow> DB \<Rightarrow> error + Feed" where
  "GetByID json_Unmarshal i db =
    (case ListAll json_Unmarshal db of
       Inl err \<Rightarrow> Inl err
     | Inr feeds \<Rightarrow>
        (case findID i feeds of
           Some feed \<Rightarrow> Inr feed
         | None \<Rightarrow> Inl ErrorFeedNotFound))"

subsection \<open>Sequences of calls\<close>


subsection \<open>What is assumed of the JSON library\<close>

text \<open>
  \<^verbatim>\<open>encoding/json\<close> does not read back every feed as it was written: a byte that is
  not part of a valid UTF-8 encoding is written as U+FFFD. What a later call reads back
  is therefore stated in two ways.

  \<open>codec_roundtrip\<close>: on a set \<open>ok\<close> of feeds the serialiser is faithful. Whatever
  \<^verbatim>\<open>json.Marshal\<close> produces for a non-empty list of feeds of \<open>ok\<close> is not empty, and
  \<^verbatim>\<open>json.Unmarshal\<close> reads the list back from it.
\<close>

definition codec_roundtrip ::
  "(Feed \<Rightarrow> bool) \<Rightarrow> (Feed list \<Rightarrow> error + bytes) \<Rightarrow> (bytes \<Rightarrow> Feed slice option) \<Rightarrow> bool" where
  "codec_roundtrip ok json_Marshal json_Unmarshal \<longleftrightarrow>
    (\<forall>feeds raw. list_all ok feeds \<longrightarrow> feeds \<noteq> [] \<longrightarrow> json_Marshal feeds = Inr raw \<longrightarrow>
       raw \<noteq> [] \<and> (\<exists>s. json_Unmarshal raw = Some s \<and> elems s = feeds))"

text \<open>
  \<open>codec_reads\<close>: the serialiser reads every feed \<open>f\<close> back as the feed \<open>back f\<close>, and
  a feed it has read back it reads back as it is. Whatever \<^verbatim>\<open>json.Marshal\<close>
  produces for a non-empty list of feeds is not empty, and \<^verbatim>\<open>json.Unmarshal\<close> reads
  from it the list of what \<open>back\<close> makes of the feeds. For \<^verbatim>\<open>encoding/json\<close>,
  \<open>back\<close> coerces the six fields to valid UTF-8 (\<open>coerce_feed\<close> below), so that a
  field is read back as it was written exactly when it is valid UTF-8.
\<close>

definition codec_reads ::
  "(Feed \<Rightarrow> Feed) \<Rightarrow> (Feed list \<Rightarrow> error + bytes) \<Rightarrow> (bytes \<Rightarrow> Feed slice option) \<Rightarrow> bool" where
  "codec_reads back json_Marshal json_Unmarshal \<longleftrightarrow>
    (\<forall>f. back (back f) = back f) \<and>
    (\<forall>feeds raw. feeds \<noteq> [] \<longrightarrow> json_Marshal feeds = Inr raw \<longrightarrow>
       raw \<noteq> [] \<and> (\<exists>s. json_Unmarshal raw = Some s \<and> elems s = map back feeds))"

text \<open>The feeds the store holds (when it can be read) are all in \<open>ok\<close>.\<close>

definition stored_ok :: "(Feed \<Rightarrow> bool) \<Rightarrow> (bytes \<Rightarrow> Feed slice option) \<Rightarrow> DB \<Rightarrow> bool" where
  "stored_ok ok json_Unmarshal db \<longleftrightarrow>
    (case listStored json_Unmarshal db of
       Inl err \<Rightarrow> True
     | Inr s \<Rightarrow> list_all ok (elems s))"

subsection \<open>Strings as \<^verbatim>\<open>encoding/json\<close> writes them\<close>

text \<open>
  \<^verbatim>\<open>json.Marshal\<close> walks a string with \<^verbatim>\<open>utf8.DecodeRuneInString\<close>: where
  that returns \<^verbatim>\<open>(RuneError, 1)\<close> it writes U+FFFD for the one byte and goes on
  with the next byte; every other rune is read back as it was. \<open>rune_size\<close> is the
  size \<^verbatim>\<open>DecodeRuneInString\<close> returns for a well-formed encoding at the head of
  the string (the table of package \<^verbatim>\<open>unicode/utf8\<close>), and 0 for an invalid byte.
\<close>

definition byte :: "char \<Rightarrow> nat" where
  "byte c = of_char c"

definition between :: "nat \<Rightarrow> nat \<Rightarrow> char \<Rightarrow> bool" where
  "between lo hi c \<longleftrightarrow> lo \<le> byte c \<and> byte c \<le> hi"

text \<open>The string starts with \<open>n\<close> continuation bytes.\<close>

fun continuation :: "nat \<Rightarrow> string \<Rightarrow> bool" where
  "continuation 0 s = True"
| "continuation (Suc n) [] = False"
| "continuation (Suc n) (c # s) = (between 0x80 0xBF c \<and> continuation n s)"

text \<open>The second byte is within the range its lead byte accepts, the others continue.\<close>

definition accepted :: "nat \<Rightarrow> nat \<Rightarrow> nat \<Rightarrow> string \<Rightarrow> bool" where
  "accepted lo hi n s =
    (case s of [] \<Rightarrow> False | c # s' \<Rightarrow> between lo hi c \<and> continuation n s')"

text \<open>
  The lead bytes of the encodings of more than one byte: the number of continuation
  bytes after the second byte, and the range the second byte must be in.
\<close>

definition lead :: "char \<Rightarrow> (nat \<times> nat \<times> nat) option" where
  "lead a =
    (if between 0xC2 0xDF a then Some (0, 0x80, 0xBF)
     else if byte a = 0xE0 then Some (1, 0xA0, 0xBF)
     else if between 0xE1 0xEC a \<or> between 0xEE 0xEF a then Some (1, 0x80, 0xBF)
     else if byte a = 0xED then Some (1, 0x80, 0x9F)
     else if byte a = 0xF0 then Some (2, 0x90, 0xBF)
     else if between 0xF1 0xF3 a then Some (2, 0x80, 0xBF)
     else if byte a = 0xF4 then Some (2, 0x80, 0x8F)
     else None)"

definition rune_size :: "string \<Rightarrow> nat" where
  "rune_size s =
    (case s of
       [] \<Rightarrow> 0
     | a # rest \<Rightarrow>
        if byte a < 0x80 then 1
        else (case lead a of
                None \<Rightarrow> 0
              | Some (n, lo, hi) \<Rightarrow> if accepted lo hi n rest then n + 2 else 0))"

text \<open>U+FFFD in UTF-8.\<close>

definition replacement :: string where
  "replacement = [CHR 0xEF, CHR 0xBF, CHR 0xBD]"

text \<open>
  The string read back after it was written; \<open>k\<close> counts the bytes still to copy of
  the rune being copied.
\<close>

fun coerce_from :: "nat \<Rightarrow> string \<Rightarrow> string" where
  "coerce_from k [] = []"
| "coerce_from (Suc k) (c # s) = c # coerce_from k s"
| "coerce_from 0 (c # s) =
    (case rune_size (c # s) of
       0 \<Rightarrow> replacement @ coerce_from 0 s
     | Suc n \<Rightarrow> c # coerce_from n s)"

definition toValidUTF8 :: "string \<Rightarrow> string" where
  "toValidUTF8 s = coerce_from 0 s"

text \<open>The string is valid UTF-8: no byte of it is replaced.\<close>

fun valid_from :: "nat \<Rightarrow> string \<Rightarrow> bool" where
  "valid_from k [] = True"
| "valid_from (Suc k) (c # s) = valid_from k s"
| "valid_from 0 (c # s) =
    (case rune_size (c # s) of
       0 \<Rightarrow> False
     | Suc n \<Rightarrow> valid_from n s)"

definition utf8_valid :: "string \<Rightarrow> bool" where
  "utf8_valid s = valid_from 0 s"

subsection \<open>A concrete serialiser\<close>

text \<open>
  A small serialiser with the two properties of \<^verbatim>\<open>encoding/json\<close> that the store
  depends on: it coerces the strings it writes to valid UTF-8, and it rejects the empty
  input. Its framing is not JSON's: a string is written as its bytes, each after a
  \<^verbatim>\<open>+\<close>, and closed by \<^verbatim>\<open>;\<close>; a feed is its six fields in the order of the
  struct; a list starts with \<^verbatim>\<open>[\<close>.
\<close>

fun put_str :: "string \<Rightarrow> bytes \<Rightarrow> bytes" where
  "put_str [] rest = CHR '';'' # rest"
| "put_str (c # cs) rest = CHR ''+'' # c # put_str cs rest"

fun put_strs :: "string list \<Rightarrow> bytes" where
  "put_strs [] = []"
| "put_strs (s # ss) = put_str s (put_strs ss)"

fun get_strs :: "bytes \<Rightarrow> string list option" where
  "get_strs [] = Some []"
| "get_strs [m] = (if m = CHR '';'' then Some [[]] else None)"
| "get_strs (m # c # rest) =
    (if m = CHR '';'' then map_option (Cons []) (get_strs (c # rest))
     else if m = CHR ''+'' then
       (case get_strs rest of
          Some (s # ss) \<Rightarrow> Some ((c # s) # ss)
        | _ \<Rightarrow> None)
     else None)"

definition fields :: "Feed \<Rightarrow> string list" where
  "fields f = [ID f, Title f, Description f, URL f, ImageURL f, Category f]"

fun feeds_of :: "string list \<Rightarrow> Feed list option" where
  "feeds_of [] = Some []"
| "feeds_of (i # t # d # u # im # c # rest) =
    map_option
      (Cons \<lparr> ID = i, Title = t, Description = d, URL = u, ImageURL = im, Category = c \<rparr>)
      (feeds_of rest)"
| "feeds_of _ = None"

definition demo_Marshal :: "Feed list \<Rightarrow> error + bytes" where
  "demo_Marshal feeds =
    Inr (CHR ''['' # put_strs (map toValidUTF8 (concat (map fields feeds))))"

definition demo_Unmarshal :: "bytes \<Rightarrow> Feed slice option" where
  "demo_Unmarshal raw =
    (case raw of
       [] \<Rightarrow> None
     | h # rest \<Rightarrow>
        if h = CHR ''['' then
          (case get_strs rest of
             None \<Rightarrow> None
           | Some ss \<Rightarrow> map_option Slice (feeds_of ss))
        else None)"

text \<open>The feeds whose fields are all valid UTF-8.\<close>

definition utf8_feed :: "Feed \<Rightarrow> bool" where
  "utf8_feed f = list_all utf8_valid (fields f)"

text \<open>The feed as it is read back after it was written.\<close>

definition coerce_feed :: "Feed \<Rightarrow> Feed" where
  "coerce_feed f =
    \<lparr> ID = toValidUTF8 (ID f), Title = toValidUTF8 (Title f),
      Description = toValidUTF8 (Description f), URL = toValidUTF8 (URL f),
      ImageURL = toValidUTF8 (ImageURL f), Category = toValidUTF8 (Category f) \<rparr>"

subsection \<open>Concrete stores and candidates\<close>

text \<open>An initialised store with nothing in it, and a candidate.\<close>

definition emptyStore :: DB where
  "emptyStore = snd (init None None Map.empty)"

definition exampleFeed :: Feed where
  "exampleFeed =
    \<lparr> ID = ''mine'', Title = ''Example'', Description = ''An example feed'',
      URL = ''http://example.com/rss'', ImageURL = '''', Category = ''Examples'' \<rparr>"

text \<open>A candidate with the URL of the first hard-coded feed.\<close>

definition duplicateFeed :: Feed where
  "duplicateFeed = exampleFeed\<lparr>URL := ''http://feeds.bbci.co.uk/news/uk/rss.xml''\<rparr>"

text \<open>
  A candidate whose title is not ASCII and is valid UTF-8 (the last letter is U+00E9),
  one whose title is not valid UTF-8 (the same letter in Latin-1), and one whose URL
  ends in the byte \<^verbatim>\<open>0xFF\<close>, which no UTF-8 encoding holds.
\<close>

definition cafeFeed :: Feed where
  "cafeFeed =
    exampleFeed\<lparr>Title := ''caf'' @ [CHR 0xC3, CHR 0xA9], URL := ''http://example.org/atom''\<rparr>"



text \<open>
  Two stores whose persisted bytes were replaced from outside: by a value of length zero,
  and by bytes that are no serialised list.
\<close>

definition zeroLengthStore :: DB where
  "zeroLengthStore = emptyStore(feedListBucket \<mapsto> Map.empty(allFeedsBucketKey \<mapsto> []))"

definition corruptedStore :: DB where
  "corruptedStore =
    emptyStore(feedListBucket \<mapsto> Map.empty(allFeedsBucketKey \<mapsto> ''not a feed list''))"

section \<open>Properties\<close>

subsection \<open>The loops\<close>

lemma findURL_None: "findURL url xs = None \<longleftrightarrow> url \<notin> URL ` set xs"
  by (induction xs) auto


lemma findURL_Some_image: "findURL url xs = Some e \<Longrightarrow> url \<in> URL ` set xs"
  using findURL_None [of url xs] by simp


lemma findID_None: "findID i xs = None \<longleftrightarrow> i \<notin> ID ` set xs"
  by (induction xs) auto

lemma findID_Some: "findID i xs = Some f \<Longrightarrow> f \<in> set xs \<and> ID f = i"
  by (induction xs) (auto split: if_splits)

lemma findID_append:
  "findID i (xs @ ys) = (case findID i xs of Some f \<Rightarrow> Some f | None \<Rightarrow> findID i ys)"
  by (induction xs) auto

text \<open>The loop of \<open>GetByID\<close> stops at the first feed with the identifier.\<close>

lemma findID_first:
  "findID i xs = Some f \<longleftrightarrow> (\<exists>pre post. xs = pre @ f # post \<and> ID f = i \<and> i \<notin> ID ` set pre)"
proof
  show "findID i xs = Some f \<Longrightarrow> \<exists>pre post. xs = pre @ f # post \<and> ID f = i \<and> i \<notin> ID ` set pre"
  proof (induction xs)
    case Nil
    then show ?case by simp
  next
    case (Cons x xs)
    show ?case
    proof (cases "ID x = i")
      case True
      with Cons.prems have "x = f" by simp
      with True have "x # xs = [] @ f # xs \<and> ID f = i \<and> i \<notin> ID ` set []" by simp
      then show ?thesis by blast
    next
      case False
      with Cons.prems have "findID i xs = Some f" by simp
      from Cons.IH [OF this] obtain pre post
        where "xs = pre @ f # post" "ID f = i" "i \<notin> ID ` set pre" by blast
      with False have "x # xs = (x # pre) @ f # post \<and> ID f = i \<and> i \<notin> ID ` set (x # pre)"
        by auto
      then show ?thesis by blast
    qed
  qed
next
  assume "\<exists>pre post. xs = pre @ f # post \<and> ID f = i \<and> i \<notin> ID ` set pre"
  then obtain pre post where "xs = pre @ f # post" "ID f = i" "i \<notin> ID ` set pre" by blast
  then show "findID i xs = Some f"
    by (simp add: findID_append findID_None [symmetric])
qed

subsection \<open>Reading the store\<close>

lemma listStored_unconfigured:
  "db feedListBucket = None \<Longrightarrow> listStored u db = Inl ErrorUnconfiguredBucket"
  by (simp add: listStored_def View_def Bucket_def)

lemma listStored_bucket:
  "db feedListBucket = Some b \<Longrightarrow>
   listStored u db =
     (if Get b allFeedsBucketKey = [] then Inr (Slice [])
      else case u (Get b allFeedsBucketKey) of
             None \<Rightarrow> Inl ErrorStoreFeedListCorrupted
           | Some feedList \<Rightarrow> Inr feedList)"
  by (simp add: listStored_def View_def Bucket_def)

lemma listStored_Inr_bucket: "listStored u db = Inr s \<Longrightarrow> \<exists>b. db feedListBucket = Some b"
  by (cases "db feedListBucket") (simp_all add: listStored_unconfigured)

lemma listStored_errors:
  "listStored u db = Inl e \<Longrightarrow> e = ErrorUnconfiguredBucket \<or> e = ErrorStoreFeedListCorrupted"
  by (cases "db feedListBucket")
     (auto simp: listStored_unconfigured listStored_bucket split: if_splits option.splits)

lemma ListAll_Inr: "listStored u db = Inr s \<Longrightarrow> ListAll u db = Inr (defaultFeedsList @ elems s)"
  by (cases s) (simp_all add: ListAll_def)

lemma ListAll_Inl: "listStored u db = Inl e \<Longrightarrow> ListAll u db = Inl e"
  by (simp add: ListAll_def)

text \<open>What a faithful serialiser makes of a value \<open>Add\<close> has written.\<close>

lemma listStored_written:
  assumes "codec_roundtrip ok m u" "list_all ok feeds" "feeds \<noteq> []" "m feeds = Inr raw"
  shows "\<exists>s. listStored u (db(feedListBucket \<mapsto> b(allFeedsBucketKey \<mapsto> raw))) = Inr s
             \<and> elems s = feeds"
proof -
  from assms obtain s where "raw \<noteq> []" "u raw = Some s" "elems s = feeds"
    unfolding codec_roundtrip_def by blast
  then show ?thesis
    by (simp add: listStored_bucket Get_def)
qed


text \<open>Such a serialiser is faithful on the feeds that it reads back as they are.\<close>

lemma codec_reads_roundtrip:
  assumes "codec_reads back m u"
  shows "codec_roundtrip (\<lambda>f. back f = f) m u"
  unfolding codec_roundtrip_def
proof (intro allI impI)
  fix feeds raw
  assume f: "list_all (\<lambda>f. back f = f) feeds" "feeds \<noteq> []" "m feeds = Inr raw"
  from f(1) have "map back feeds = feeds" by (simp add: list_all_iff map_idI)
  with assms f(2,3) show "raw \<noteq> [] \<and> (\<exists>s. u raw = Some s \<and> elems s = feeds)"
    unfolding codec_reads_def by metis
qed

subsection \<open>The paths through \<open>Add\<close>\<close>

text \<open>
  A call of \<open>Add\<close> ends in one of six ways: the read fails; a stored feed has the URL; a
  hard-coded feed has the URL; the list cannot be serialised; the write fails; the new
  list is written.
\<close>

lemma Add_cases:
  assumes "Add m u uid po f db = (r, db')"
  obtains
    (read_error) e where "listStored u db = Inl e" "r = Inl e" "db' = db"
  | (stored_dup) s e where "listStored u db = Inr s" "findURL (URL f) (elems s) = Some e"
      "r = Inr (ID e)" "db' = db"
  | (default_dup) s e where "listStored u db = Inr s" "findURL (URL f) (elems s) = None"
      "findURL (URL f) defaultFeedsList = Some e" "r = Inr (ID e)" "db' = db"
  | (marshal_error) s e where "listStored u db = Inr s" "findURL (URL f) (elems s) = None"
      "findURL (URL f) defaultFeedsList = None" "m (elems s @ [f\<lparr>ID := uid\<rparr>]) = Inl e"
      "r = Inl e" "db' = db"
  | (write_error) s raw e where "listStored u db = Inr s" "findURL (URL f) (elems s) = None"
      "findURL (URL f) defaultFeedsList = None" "m (elems s @ [f\<lparr>ID := uid\<rparr>]) = Inr raw"
      "po = Some e" "r = Inl e" "db' = db"
  | (written) s raw b where "listStored u db = Inr s" "findURL (URL f) (elems s) = None"
      "findURL (URL f) defaultFeedsList = None" "m (elems s @ [f\<lparr>ID := uid\<rparr>]) = Inr raw"
      "po = None" "db feedListBucket = Some b" "r = Inr uid"
      "db' = db(feedListBucket \<mapsto> b(allFeedsBucketKey \<mapsto> raw))"
proof (cases "listStored u db")
  case (Inl e)
  with assms show ?thesis by (intro read_error [of e]) (simp_all add: Add_def)
next
  case (Inr s)
  then obtain b where b: "db feedListBucket = Some b" using listStored_Inr_bucket by blast
  show ?thesis
  proof (cases "findURL (URL f) (elems s)")
    case (Some e)
    with assms Inr show ?thesis by (intro stored_dup [of s e]) (auto simp: Add_def)
  next
    case None
    note n1 = this
    show ?thesis
    proof (cases "findURL (URL f) defaultFeedsList")
      case (Some e)
      with assms Inr n1 show ?thesis by (intro default_dup [of s e]) (auto simp: Add_def)
    next
      case None
      note n2 = this
      show ?thesis
      proof (cases "m (elems s @ [f\<lparr>ID := uid\<rparr>])")
        case (Inl e)
        with assms Inr n1 n2 show ?thesis
          by (intro marshal_error [of s e]) (auto simp: Add_def)
      next
        case (Inr raw)
        note mr = this
        show ?thesis
        proof (cases po)
          case None
          with assms \<open>listStored u db = Inr s\<close> n1 n2 mr b show ?thesis
            by (intro written [of s raw b])
               (auto simp: Add_def Update_def Put_def Bucket_def)
        next
          case (Some e)
          with assms \<open>listStored u db = Inr s\<close> n1 n2 mr b show ?thesis
            by (intro write_error [of s raw e])
               (auto simp: Add_def Update_def Put_def Bucket_def)
        qed
      qed
    qed
  qed
qed



text \<open>A successful call with a URL no feed has appends the candidate, with the new identifier.\<close>

lemma Add_appends:
  assumes rt: "codec_roundtrip ok m u"
    and s: "listStored u db = Inr s"
    and oks: "list_all ok (elems s)"
    and okf: "ok (f\<lparr>ID := uid\<rparr>)"
    and new: "URL f \<notin> URL ` set (defaultFeedsList @ elems s)"
    and a: "Add m u uid po f db = (Inr i, db')"
  shows "i = uid \<and> (\<exists>s'. listStored u db' = Inr s' \<and> elems s' = elems s @ [f\<lparr>ID := uid\<rparr>])"
  using a
proof (cases rule: Add_cases)
  case (stored_dup s0 e)
  from findURL_Some_image [OF stored_dup(2)] stored_dup(1) s new show ?thesis by auto
next
  case (default_dup s0 e)
  from findURL_Some_image [OF default_dup(3)] new show ?thesis by auto
next
  case (written s0 raw b)
  with s have s0: "s0 = s" by simp
  let ?feeds = "elems s @ [f\<lparr>ID := uid\<rparr>]"
  have "list_all ok ?feeds" "?feeds \<noteq> []" using oks okf by simp_all
  from listStored_written [OF rt this written(4) [unfolded s0], of db b] written(7,8)
  show ?thesis by simp
qed simp_all

subsection \<open>The concrete serialiser and stores\<close>

lemma get_put_str: "get_strs (put_str s rest) = map_option (Cons s) (get_strs rest)"
proof (induction s)
  case Nil
  then show ?case by (cases rest) simp_all
next
  case (Cons c cs)
  then show ?case by (simp split: option.splits list.splits)
qed

lemma get_put_strs: "get_strs (put_strs ss) = Some ss"
  by (induction ss) (simp_all add: get_put_str)

lemma feeds_of_fields: "feeds_of (concat (map fields feeds)) = Some feeds"
  by (induction feeds) (simp_all add: fields_def)

text \<open>A valid string is written as it is, and what is written is valid.\<close>

lemma valid_coerce: "valid_from k s \<Longrightarrow> coerce_from k s = s"
  by (induction k s rule: coerce_from.induct) (auto split: nat.splits)

lemma toValidUTF8_valid: "utf8_valid s \<Longrightarrow> toValidUTF8 s = s"
  by (simp add: utf8_valid_def toValidUTF8_def valid_coerce)

lemma continuation_coerce: "continuation n s \<Longrightarrow> continuation n (coerce_from n s)"
proof (induction n arbitrary: s)
  case 0
  then show ?case by simp
next
  case (Suc n)
  then show ?case by (cases s) simp_all
qed

lemma accepted_coerce: "accepted lo hi n s \<Longrightarrow> accepted lo hi n (coerce_from (Suc n) s)"
  by (cases s) (simp_all add: accepted_def continuation_coerce)

lemma rune_size_coerce:
  assumes "rune_size (c # s) = Suc n"
  shows "rune_size (c # coerce_from n s) = Suc n"
proof (cases "byte c < 0x80")
  case True
  with assms show ?thesis by (simp add: rune_size_def)
next
  case False
  with assms obtain k lo hi where l: "lead c = Some (k, lo, hi)"
    by (cases "lead c") (auto simp: rune_size_def)
  with assms False have "accepted lo hi k s" "n = Suc k"
    by (auto simp: rune_size_def split: if_splits)
  with accepted_coerce [of lo hi k s] l False show ?thesis
    by (simp add: rune_size_def)
qed

lemma rune_size_replacement: "rune_size (replacement @ s) = 3"
  by (simp add: replacement_def rune_size_def lead_def accepted_def between_def byte_def)

lemma valid_replacement: "valid_from 0 (replacement @ s) = valid_from 0 s"
  using rune_size_replacement [of s] by (simp add: replacement_def numeral_3_eq_3)

lemma valid_coerce_from: "valid_from k (coerce_from k s)"
proof (induction k s rule: coerce_from.induct)
  case (1 k)
  then show ?case by simp
next
  case (2 k c s)
  then show ?case by simp
next
  case (3 c s)
  show ?case
  proof (cases "rune_size (c # s)")
    case 0
    with 3 show ?thesis by (simp add: valid_replacement)
  next
    case (Suc n)
    with 3 rune_size_coerce [OF Suc] show ?thesis by simp
  qed
qed

lemma toValidUTF8_idem: "toValidUTF8 (toValidUTF8 s) = toValidUTF8 s"
  by (simp add: toValidUTF8_def valid_coerce valid_coerce_from)

lemma toValidUTF8_fields:
  "list_all utf8_feed feeds \<Longrightarrow>
   map toValidUTF8 (concat (map fields feeds)) = concat (map fields feeds)"
proof (induction feeds)
  case Nil
  then show ?case by simp
next
  case (Cons f feeds)
  then have "list_all utf8_valid (fields f)" by (simp add: utf8_feed_def)
  then have "map toValidUTF8 (fields f) = fields f"
    by (simp add: list_all_iff map_idI toValidUTF8_valid)
  with Cons show ?case by simp
qed

lemma coerce_fields:
  "map toValidUTF8 (concat (map fields feeds)) = concat (map fields (map coerce_feed feeds))"
  by (induction feeds) (simp_all add: fields_def coerce_feed_def)

lemma feeds_of_coerce:
  "feeds_of (map toValidUTF8 (concat (map fields feeds))) = Some (map coerce_feed feeds)"
  by (simp only: coerce_fields feeds_of_fields)

text \<open>
  The serialiser is faithful on the feeds whose fields are valid UTF-8, and reads every
  feed back with its fields coerced.
\<close>

lemma demo_roundtrip: "codec_roundtrip utf8_feed demo_Marshal demo_Unmarshal"
  by (auto simp: codec_roundtrip_def demo_Marshal_def demo_Unmarshal_def get_put_strs
      feeds_of_fields toValidUTF8_fields)

lemma demo_reads: "codec_reads coerce_feed demo_Marshal demo_Unmarshal"
  by (auto simp: codec_reads_def demo_Marshal_def demo_Unmarshal_def get_put_strs
      feeds_of_coerce coerce_feed_def toValidUTF8_idem)

text \<open>The counters of the three functions on strings, written as numerals.\<close>

lemma continuation_numeral:
  "continuation (numeral k) [] = False"
  "continuation (numeral k) (c # s) = (between 0x80 0xBF c \<and> continuation (pred_numeral k) s)"
  by (simp_all add: numeral_eq_Suc)

lemma coerce_from_numeral:
  "coerce_from (numeral k) (c # s) = c # coerce_from (pred_numeral k) s"
  by (simp add: numeral_eq_Suc)

lemma valid_from_numeral:
  "valid_from (numeral k) (c # s) = valid_from (pred_numeral k) s"
  by (simp add: numeral_eq_Suc)

lemmas utf8_defs = rune_size_def lead_def byte_def between_def accepted_def replacement_def
  toValidUTF8_def utf8_valid_def utf8_feed_def coerce_feed_def fields_def continuation_numeral
  coerce_from_numeral valid_from_numeral

lemma demo_rejects_empty: "demo_Unmarshal [] = None"
  by (simp add: demo_Unmarshal_def)

lemma demo_rejects_garbage: "demo_Unmarshal ''not a feed list'' = None"
  by (simp add: demo_Unmarshal_def)

lemmas store_defs = Add_def listStored_def ListAll_def GetByID_def View_def Update_def Bucket_def
  Get_def Put_def init_def CreateBucketIfNotExists_def emptyStore_def feedListBucket_def
  allFeedsBucketKey_def

lemma emptyStore_bucket: "emptyStore feedListBucket = Some Map.empty"
  by (simp add: store_defs)

lemma listStored_emptyStore: "listStored u emptyStore = Inr (Slice [])"
  by (simp add: store_defs)

lemma ListAll_emptyStore: "ListAll u emptyStore = Inr defaultFeedsList"
  by (simp add: ListAll_Inr [OF listStored_emptyStore])

lemma stored_ok_emptyStore: "stored_ok ok u emptyStore"
  by (simp add: stored_ok_def listStored_emptyStore)

lemma corruptedStore_bucket:
  "corruptedStore feedListBucket = Some (Map.empty(allFeedsBucketKey \<mapsto> ''not a feed list''))"
  by (simp add: corruptedStore_def)

lemma listStored_corruptedStore:
  "listStored demo_Unmarshal corruptedStore = Inl ErrorStoreFeedListCorrupted"
  using corruptedStore_bucket by (simp add: listStored_bucket Get_def demo_rejects_garbage)

lemma zeroLengthStore_bucket:
  "zeroLengthStore feedListBucket = Some (Map.empty(allFeedsBucketKey \<mapsto> []))"
  by (simp add: zeroLengthStore_def)


lemma exampleFeed_new: "URL exampleFeed \<notin> URL ` set defaultFeedsList"
  by (simp add: exampleFeed_def defaultFeedsList_def)

lemma exampleFeed_findURL: "findURL (URL exampleFeed) defaultFeedsList = None"
  using exampleFeed_new by (simp add: findURL_None)

text \<open>The first registration of the example, a second one, and one whose write fails.\<close>

lemma first_add:
  "fst (Add demo_Marshal demo_Unmarshal ''id-1'' None exampleFeed emptyStore) = Inr ''id-1''"
  by (simp add: Add_def listStored_emptyStore exampleFeed_findURL demo_Marshal_def Update_def
      Bucket_def Put_def emptyStore_bucket)

lemma first_add_pair:
  "Add demo_Marshal demo_Unmarshal ''id-1'' None exampleFeed emptyStore =
    (Inr ''id-1'', snd (Add demo_Marshal demo_Unmarshal ''id-1'' None exampleFeed emptyStore))"
  using first_add by (simp add: prod_eq_iff)

lemma second_add:
  "fst (Add demo_Marshal demo_Unmarshal ''id-2'' None exampleFeed
     (snd (Add demo_Marshal demo_Unmarshal ''id-1'' None exampleFeed emptyStore))) = Inr ''id-1''"
  by (simp add: store_defs exampleFeed_def defaultFeedsList_def demo_Marshal_def
      demo_Unmarshal_def utf8_defs)

lemma utf8_exampleFeed: "utf8_feed (exampleFeed\<lparr>ID := ''id-1''\<rparr>)"
  by (simp add: exampleFeed_def utf8_defs)

text \<open>The registration of a candidate with a title that is not ASCII.\<close>

lemma cafeFeed_new: "URL cafeFeed \<notin> URL ` set defaultFeedsList"
  by (simp add: cafeFeed_def exampleFeed_def defaultFeedsList_def)

lemma cafeFeed_back: "coerce_feed (cafeFeed\<lparr>ID := ''id-1''\<rparr>) = cafeFeed\<lparr>ID := ''id-1''\<rparr>"
  by (simp add: cafeFeed_def exampleFeed_def utf8_defs)

lemma cafe_add_pair:
  "Add demo_Marshal demo_Unmarshal ''id-1'' None cafeFeed emptyStore =
    (Inr ''id-1'', snd (Add demo_Marshal demo_Unmarshal ''id-1'' None cafeFeed emptyStore))"
proof -
  have "findURL (URL cafeFeed) defaultFeedsList = None"
    using cafeFeed_new by (simp add: findURL_None)
  then have "fst (Add demo_Marshal demo_Unmarshal ''id-1'' None cafeFeed emptyStore)
      = Inr ''id-1''"
    by (simp add: Add_def listStored_emptyStore demo_Marshal_def Update_def Bucket_def Put_def
        emptyStore_bucket)
  then show ?thesis by (simp add: prod_eq_iff)
qed







lemma first_add_fails:
  "fst (Add demo_Marshal demo_Unmarshal ''id-1'' (Some (ExternalError ''disk full''))
      exampleFeed emptyStore) = Inl (ExternalError ''disk full'')"
  by (simp add: Add_def listStored_emptyStore exampleFeed_findURL demo_Marshal_def Update_def
      Bucket_def Put_def emptyStore_bucket)

section \<open>The claims\<close>

subsection \<open>C1: no two listed feeds share a URL\<close>






subsection \<open>C2: registering a URL twice\<close>




subsection \<open>C3: hard-coded feeds first, stored feeds after them\<close>

text \<open>
  Claim C3. Whenever \<open>ListAll\<close> succeeds, its result is the hard-coded list, in its
  order, followed by the stored list as \<open>listStored\<close> reads it, and nothing else. The
  stored list is in insertion order: a successful \<open>Add\<close> of a URL that no listed feed
  has (with a serialiser faithful on the feeds involved) makes the next \<open>ListAll\<close>
  return the former result followed by the new feed.
\<close>

theorem ListAll_merge_order:
  assumes "ListAll u db = Inr feeds"
  shows "\<exists>s. listStored u db = Inr s \<and> feeds = defaultFeedsList @ elems s \<and>
    (\<forall>ok m uid po f i db'.
       codec_roundtrip ok m u \<longrightarrow> list_all ok (elems s) \<longrightarrow> ok (f\<lparr>ID := uid\<rparr>) \<longrightarrow>
       URL f \<notin> URL ` set feeds \<longrightarrow> Add m u uid po f db = (Inr i, db') \<longrightarrow>
       ListAll u db' = Inr (feeds @ [f\<lparr>ID := uid\<rparr>]))"
proof (cases "listStored u db")
  case (Inl e)
  with assms show ?thesis by (simp add: ListAll_Inl)
next
  case (Inr s)
  with assms have feeds: "feeds = defaultFeedsList @ elems s" by (simp add: ListAll_Inr)
  have "ListAll u db' = Inr (feeds @ [f\<lparr>ID := uid\<rparr>])"
    if "codec_roundtrip ok m u" "list_all ok (elems s)" "ok (f\<lparr>ID := uid\<rparr>)"
      "URL f \<notin> URL ` set feeds" "Add m u uid po f db = (Inr i, db')"
    for ok m uid po f i db'
    using Add_appends [OF that(1) Inr that(2,3) _ that(5)] that(4) feeds
    by (auto simp: ListAll_Inr)
  with Inr feeds show ?thesis by blast
qed

theorem ListAll_merge_order_witness:
  "ListAll demo_Unmarshal emptyStore = Inr defaultFeedsList \<and>
   ListAll demo_Unmarshal
     (snd (Add demo_Marshal demo_Unmarshal ''id-1'' None exampleFeed emptyStore))
   = Inr (defaultFeedsList @ [exampleFeed\<lparr>ID := ''id-1''\<rparr>])"
proof -
  from ListAll_merge_order [OF ListAll_emptyStore, of demo_Unmarshal]
  obtain s where s: "listStored demo_Unmarshal emptyStore = Inr s"
    and step: "\<And>ok m uid po f i db'.
       codec_roundtrip ok m demo_Unmarshal \<Longrightarrow> list_all ok (elems s) \<Longrightarrow>
       ok (f\<lparr>ID := uid\<rparr>) \<Longrightarrow> URL f \<notin> URL ` set defaultFeedsList \<Longrightarrow>
       Add m demo_Unmarshal uid po f emptyStore = (Inr i, db') \<Longrightarrow>
       ListAll demo_Unmarshal db' = Inr (defaultFeedsList @ [f\<lparr>ID := uid\<rparr>])"
    by blast
  from s have "elems s = []" by (auto simp: listStored_emptyStore)
  then have "list_all utf8_feed (elems s)" by simp
  from step [OF demo_roundtrip this utf8_exampleFeed exampleFeed_new first_add_pair]
    ListAll_emptyStore
  show ?thesis by simp
qed

subsection \<open>C4: the errors of \<open>listStored\<close>\<close>

text \<open>
  Claim C4, as stated, fails on a stored value of length zero: the value is stored and
  the serialiser rejects it (as \<^verbatim>\<open>json.Unmarshal\<close> rejects the empty input), yet
  \<open>listStored\<close> returns the empty list and not \<open>ErrorStoreFeedListCorrupted\<close>. The
  length check of line 132 returns before the value is handed to the serialiser.
\<close>

theorem listStored_taxonomy_counterexample:
  "zeroLengthStore feedListBucket = Some (Map.empty(allFeedsBucketKey \<mapsto> [])) \<and>
   demo_Unmarshal [] = None \<and>
   listStored demo_Unmarshal zeroLengthStore = Inr (Slice []) \<and>
   listStored demo_Unmarshal zeroLengthStore \<noteq> Inl ErrorStoreFeedListCorrupted"
  by (simp add: zeroLengthStore_def listStored_bucket Get_def demo_rejects_empty)

text \<open>
  Claim C4, amended. For every store, \<open>listStored\<close> fails with
  \<open>ErrorUnconfiguredBucket\<close> when the bucket is absent; returns the empty list, and no
  error, when the bucket exists and no value is stored under the key; and fails with
  \<open>ErrorStoreFeedListCorrupted\<close> when the stored value is not of length zero and the
  serialiser rejects it.
\<close>

theorem listStored_taxonomy:
  "(db feedListBucket = None \<longrightarrow> listStored u db = Inl ErrorUnconfiguredBucket) \<and>
   (\<forall>b. db feedListBucket = Some b \<and> b allFeedsBucketKey = None \<longrightarrow>
        listStored u db = Inr (Slice [])) \<and>
   (\<forall>b raw. db feedListBucket = Some b \<and> b allFeedsBucketKey = Some raw \<and> raw \<noteq> [] \<and>
        u raw = None \<longrightarrow> listStored u db = Inl ErrorStoreFeedListCorrupted)"
  by (auto simp: listStored_unconfigured listStored_bucket Get_def)

theorem listStored_taxonomy_witness:
  "listStored demo_Unmarshal Map.empty = Inl ErrorUnconfiguredBucket \<and>
   listStored demo_Unmarshal emptyStore = Inr (Slice []) \<and>
   listStored demo_Unmarshal corruptedStore = Inl ErrorStoreFeedListCorrupted"
proof -
  from listStored_taxonomy [of Map.empty demo_Unmarshal]
  have 1: "listStored demo_Unmarshal Map.empty = Inl ErrorUnconfiguredBucket" by simp
  from listStored_taxonomy [of emptyStore demo_Unmarshal] emptyStore_bucket
  have 2: "listStored demo_Unmarshal emptyStore = Inr (Slice [])" by simp
  from listStored_taxonomy [of corruptedStore demo_Unmarshal] corruptedStore_bucket
    demo_rejects_garbage
  have 3: "listStored demo_Unmarshal corruptedStore = Inl ErrorStoreFeedListCorrupted" by simp
  from 1 2 3 show ?thesis by simp
qed

subsection \<open>C5: lookup by identifier\<close>

text \<open>
  Claim C5. \<open>GetByID\<close> passes on every error of \<open>ListAll\<close>. When \<open>ListAll\<close>
  succeeds, \<open>GetByID\<close> returns a feed exactly when it is the first feed of the listing
  with the identifier (so one of the hard-coded feeds whenever one of them has the
  identifier), and it returns a feed whenever some listed feed has the identifier. It
  fails with \<open>ErrorFeedNotFound\<close> if and only if \<open>ListAll\<close> succeeds and no listed
  feed has the identifier.
\<close>

theorem GetByID_first_match:
  "(\<forall>e. ListAll u db = Inl e \<longrightarrow> GetByID u i db = Inl e) \<and>
   (\<forall>feeds. ListAll u db = Inr feeds \<longrightarrow>
      (\<forall>f. GetByID u i db = Inr f \<longleftrightarrow>
         (\<exists>pre post. feeds = pre @ f # post \<and> ID f = i \<and> i \<notin> ID ` set pre)) \<and>
      (\<forall>f. GetByID u i db = Inr f \<and> i \<in> ID ` set defaultFeedsList \<longrightarrow>
         f \<in> set defaultFeedsList) \<and>
      (i \<in> ID ` set feeds \<longrightarrow> (\<exists>f. GetByID u i db = Inr f))) \<and>
   (GetByID u i db = Inl ErrorFeedNotFound \<longleftrightarrow>
      (\<exists>feeds. ListAll u db = Inr feeds \<and> i \<notin> ID ` set feeds))"
proof (cases "ListAll u db")
  case (Inl e)
  then have "listStored u db = Inl e"
    by (cases "listStored u db") (auto simp: ListAll_Inl ListAll_Inr)
  with listStored_errors [of u db e] have "e \<noteq> ErrorFeedNotFound" by auto
  with Inl show ?thesis by (simp add: GetByID_def)
next
  case (Inr feeds)
  then obtain s where s: "feeds = defaultFeedsList @ elems s"
    by (cases "listStored u db") (auto simp: ListAll_Inl ListAll_Inr)
  have 1: "GetByID u i db = Inr f \<longleftrightarrow>
      (\<exists>pre post. feeds = pre @ f # post \<and> ID f = i \<and> i \<notin> ID ` set pre)" for f
    using Inr findID_first [of i feeds f] by (auto simp: GetByID_def split: option.splits)
  have 2: "GetByID u i db = Inl ErrorFeedNotFound \<longleftrightarrow> i \<notin> ID ` set feeds"
    using Inr findID_None [of i feeds] by (auto simp: GetByID_def split: option.splits)
  have 3: "\<exists>f. GetByID u i db = Inr f" if "i \<in> ID ` set feeds"
    using that Inr findID_None [of i feeds] by (auto simp: GetByID_def split: option.splits)
  have 4: "f \<in> set defaultFeedsList"
    if "GetByID u i db = Inr f" "i \<in> ID ` set defaultFeedsList" for f
  proof -
    from that(2) obtain d where d: "findID i defaultFeedsList = Some d"
      using findID_None [of i defaultFeedsList] by auto
    with that(1) Inr s have "f = d"
      by (auto simp: GetByID_def findID_append split: option.splits)
    with findID_Some [OF d] show ?thesis by simp
  qed
  from Inr 1 2 3 4 show ?thesis by simp
qed

theorem GetByID_first_match_witness:
  "GetByID demo_Unmarshal ''nonexistent'' emptyStore = Inl ErrorFeedNotFound \<and>
   GetByID demo_Unmarshal ''id-1'' corruptedStore = Inl ErrorStoreFeedListCorrupted \<and>
   (\<exists>f. GetByID demo_Unmarshal ''c2970c84-37c8-4ec1-8861-4b5a91ebff0d'' emptyStore = Inr f)"
proof -
  have no: "''nonexistent'' \<notin> ID ` set defaultFeedsList"
    by (simp add: defaultFeedsList_def)
  have yes: "''c2970c84-37c8-4ec1-8861-4b5a91ebff0d'' \<in> ID ` set defaultFeedsList"
    by (simp add: defaultFeedsList_def)
  from GetByID_first_match [of demo_Unmarshal emptyStore "''nonexistent''"] no
  have 1: "GetByID demo_Unmarshal ''nonexistent'' emptyStore = Inl ErrorFeedNotFound"
    by (simp add: ListAll_emptyStore)
  from GetByID_first_match [of demo_Unmarshal corruptedStore "''id-1''"]
  have 2: "GetByID demo_Unmarshal ''id-1'' corruptedStore = Inl ErrorStoreFeedListCorrupted"
    by (simp add: ListAll_Inl [OF listStored_corruptedStore])
  from GetByID_first_match [of demo_Unmarshal emptyStore
      "''c2970c84-37c8-4ec1-8861-4b5a91ebff0d''"] yes
    ListAll_emptyStore [of demo_Unmarshal]
  have 3: "\<exists>f. GetByID demo_Unmarshal ''c2970c84-37c8-4ec1-8861-4b5a91ebff0d'' emptyStore
      = Inr f"
    by blast
  from 1 2 3 show ?thesis by simp
qed

subsection \<open>C6: the store assigns the identifier\<close>

text \<open>
  Claim C6. \<open>Add\<close> overwrites the identifier of the candidate before anything else:
  what it returns and what it stores do not depend on the identifier the caller
  supplied. When no listed feed has the URL of the candidate and \<open>Add\<close> succeeds, it
  returns the generated identifier, and the value it persists is the serialised stored
  list followed by the candidate carrying the generated identifier.
\<close>

theorem Add_identifier_authority:
  assumes "ListAll u db = Inr feeds"
    and "URL f \<notin> URL ` set feeds"
    and "Add m u uid po f db = (Inr i, db')"
  shows "i = uid \<and>
    (\<exists>s b raw. listStored u db = Inr s \<and> db feedListBucket = Some b \<and>
       m (elems s @ [f\<lparr>ID := uid\<rparr>]) = Inr raw \<and>
       db' = db(feedListBucket \<mapsto> b(allFeedsBucketKey \<mapsto> raw))) \<and>
    (\<forall>x. Add m u uid po (f\<lparr>ID := x\<rparr>) db = Add m u uid po f db)"
proof -
  have "Add m u uid po (f\<lparr>ID := x\<rparr>) db = Add m u uid po f db" for x
    by (simp add: Add_def)
  moreover from assms(3) have "i = uid \<and>
    (\<exists>s b raw. listStored u db = Inr s \<and> db feedListBucket = Some b \<and>
       m (elems s @ [f\<lparr>ID := uid\<rparr>]) = Inr raw \<and>
       db' = db(feedListBucket \<mapsto> b(allFeedsBucketKey \<mapsto> raw)))"
  proof (cases rule: Add_cases)
    case (stored_dup s e)
    from findURL_Some_image [OF stored_dup(2)] stored_dup(1) assms(1,2) show ?thesis
      by (auto simp: ListAll_Inr)
  next
    case (default_dup s e)
    from findURL_Some_image [OF default_dup(3)] default_dup(1) assms(1,2) show ?thesis
      by (auto simp: ListAll_Inr)
  next
    case (written s raw b)
    then show ?thesis by blast
  qed simp_all
  ultimately show ?thesis by blast
qed

theorem Add_identifier_authority_witness:
  "fst (Add demo_Marshal demo_Unmarshal ''id-1'' None exampleFeed emptyStore) = Inr ''id-1'' \<and>
   ID exampleFeed = ''mine'' \<and>
   Add demo_Marshal demo_Unmarshal ''id-1'' None (exampleFeed\<lparr>ID := ''yours''\<rparr>) emptyStore
   = Add demo_Marshal demo_Unmarshal ''id-1'' None exampleFeed emptyStore"
  using Add_identifier_authority [OF ListAll_emptyStore exampleFeed_new first_add_pair]
    first_add
  by (simp add: exampleFeed_def)

subsection \<open>C7: a corrupted store\<close>

text \<open>
  Claim C7, as stated, fails on a stored value of length zero: the value is present and
  is no serialised list of feeds, yet \<open>ListAll\<close> returns the hard-coded list, \<open>Add\<close>
  registers the candidate, and \<open>GetByID\<close> finds a hard-coded feed.
\<close>

theorem corrupted_store_counterexample:
  "zeroLengthStore feedListBucket = Some (Map.empty(allFeedsBucketKey \<mapsto> [])) \<and>
   demo_Unmarshal [] = None \<and>
   ListAll demo_Unmarshal zeroLengthStore = Inr defaultFeedsList \<and>
   fst (Add demo_Marshal demo_Unmarshal ''id-1'' None exampleFeed zeroLengthStore)
     = Inr ''id-1'' \<and>
   map_sum id Title
     (GetByID demo_Unmarshal ''b1031651-411c-40bb-b269-d247794dfd59'' zeroLengthStore)
     = Inr ''BBC News - UK''"
proof -
  have l: "listStored demo_Unmarshal zeroLengthStore = Inr (Slice [])"
    using zeroLengthStore_bucket by (simp add: listStored_bucket Get_def)
  have a: "fst (Add demo_Marshal demo_Unmarshal ''id-1'' None exampleFeed zeroLengthStore)
     = Inr ''id-1''"
    by (simp add: Add_def l exampleFeed_findURL demo_Marshal_def Update_def Bucket_def Put_def
        zeroLengthStore_bucket)
  have g: "map_sum id Title
     (GetByID demo_Unmarshal ''b1031651-411c-40bb-b269-d247794dfd59'' zeroLengthStore)
     = Inr ''BBC News - UK''"
    by (simp add: GetByID_def ListAll_Inr [OF l] defaultFeedsList_def)
  from l a g show ?thesis
    by (simp add: zeroLengthStore_bucket demo_rejects_empty ListAll_Inr [OF l])
qed

text \<open>
  Claim C7, amended. For every store in which the value under the key is present, is not
  of length zero and is rejected by the serialiser, each of \<open>ListAll\<close>, \<open>Add\<close> and
  \<open>GetByID\<close> fails with \<open>ErrorStoreFeedListCorrupted\<close>, and \<open>Add\<close> leaves the store
  as it is.
\<close>

theorem corrupted_store_isolated:
  assumes "db feedListBucket = Some b"
    and "b allFeedsBucketKey = Some raw"
    and "raw \<noteq> []"
    and "u raw = None"
  shows "ListAll u db = Inl ErrorStoreFeedListCorrupted \<and>
    Add m u uid po f db = (Inl ErrorStoreFeedListCorrupted, db) \<and>
    GetByID u i db = Inl ErrorStoreFeedListCorrupted"
proof -
  from assms have "listStored u db = Inl ErrorStoreFeedListCorrupted"
    by (simp add: listStored_bucket Get_def)
  then show ?thesis by (simp add: ListAll_Inl GetByID_def Add_def)
qed

theorem corrupted_store_isolated_witness:
  "ListAll demo_Unmarshal corruptedStore = Inl ErrorStoreFeedListCorrupted \<and>
   Add demo_Marshal demo_Unmarshal ''id-1'' None exampleFeed corruptedStore
     = (Inl ErrorStoreFeedListCorrupted, corruptedStore) \<and>
   GetByID demo_Unmarshal ''b1031651-411c-40bb-b269-d247794dfd59'' corruptedStore
     = Inl ErrorStoreFeedListCorrupted"
  using corrupted_store_isolated [where db = corruptedStore and u = demo_Unmarshal
      and b = "Map.empty(allFeedsBucketKey \<mapsto> ''not a feed list'')"
      and raw = "''not a feed list''" and m = demo_Marshal and uid = "''id-1''" and po = None
      and f = exampleFeed and i = "''b1031651-411c-40bb-b269-d247794dfd59''"]
  by (simp add: corruptedStore_bucket demo_rejects_garbage)

subsection \<open>C8: a feed added is the feed found\<close>

text \<open>
  Claim C8, as stated, fails when a listed feed already has the URL of the candidate:
  \<open>Add\<close> succeeds and returns the identifier of that feed, and \<open>GetByID\<close> then finds
  that feed, whose title (and other fields) need not be the candidate's.
\<close>

theorem Add_GetByID_counterexample:
  "Add demo_Marshal demo_Unmarshal ''id-1'' None duplicateFeed emptyStore
     = (Inr ''b1031651-411c-40bb-b269-d247794dfd59'', emptyStore) \<and>
   map_sum id Title
     (GetByID demo_Unmarshal ''b1031651-411c-40bb-b269-d247794dfd59'' emptyStore)
     = Inr ''BBC News - UK'' \<and>
   Title duplicateFeed = ''Example''"
  by (simp add: Add_def GetByID_def listStored_emptyStore ListAll_emptyStore duplicateFeed_def
      exampleFeed_def defaultFeedsList_def)

text \<open>
  Claim C8, amended. Take a serialiser that reads every feed \<open>f\<close> back as \<open>back f\<close>
  (\<open>codec_reads\<close>; for \<^verbatim>\<open>encoding/json\<close>, \<open>back\<close> coerces the fields to valid
  UTF-8), a store whose stored feeds are read back as they are, a candidate that, with
  the identifier generated for it, is read back as it was written (for
  \<^verbatim>\<open>encoding/json\<close>: its fields are valid UTF-8) and whose URL no listed feed has,
  and a generated identifier that no listed feed has. If \<open>Add\<close> succeeds and returns
  an identifier, then \<open>GetByID\<close> with that identifier on the resulting store yields a
  feed whose title, description, URL, image URL and category are the candidate's and
  whose identifier is the one returned.
\<close>

theorem Add_GetByID_roundtrip:
  assumes rd: "codec_reads back m u"
    and sok: "stored_ok (\<lambda>f. back f = f) u db"
    and okf: "back (f\<lparr>ID := uid\<rparr>) = f\<lparr>ID := uid\<rparr>"
    and feeds: "ListAll u db = Inr feeds"
    and new: "URL f \<notin> URL ` set feeds"
    and fresh: "uid \<notin> ID ` set feeds"
    and a: "Add m u uid po f db = (Inr i, db')"
  shows "\<exists>g. GetByID u i db' = Inr g \<and> ID g = i \<and> Title g = Title f \<and>
    Description g = Description f \<and> URL g = URL f \<and> ImageURL g = ImageURL f \<and>
    Category g = Category f"
proof -
  from feeds obtain s where s: "listStored u db = Inr s" "feeds = defaultFeedsList @ elems s"
    by (cases "listStored u db") (auto simp: ListAll_Inl ListAll_Inr)
  from sok s(1) have oks: "list_all (\<lambda>f. back f = f) (elems s)" by (simp add: stored_ok_def)
  from Add_appends [OF codec_reads_roundtrip [OF rd] s(1) oks okf _ a] new s(2)
  obtain s' where i: "i = uid" and s': "listStored u db' = Inr s'"
    "elems s' = elems s @ [f\<lparr>ID := uid\<rparr>]" by auto
  have "ListAll u db' = Inr (feeds @ [f\<lparr>ID := uid\<rparr>])"
    using s' s(2) by (simp add: ListAll_Inr)
  moreover have "findID uid (feeds @ [f\<lparr>ID := uid\<rparr>]) = Some (f\<lparr>ID := uid\<rparr>)"
    using fresh by (simp add: findID_append findID_None [symmetric])
  ultimately have "GetByID u i db' = Inr (f\<lparr>ID := uid\<rparr>)"
    using i by (simp add: GetByID_def)
  with i show ?thesis by simp
qed

theorem Add_GetByID_roundtrip_witness:
  "codec_reads coerce_feed demo_Marshal demo_Unmarshal \<and>
   coerce_feed (cafeFeed\<lparr>ID := ''id-1''\<rparr>) = cafeFeed\<lparr>ID := ''id-1''\<rparr> \<and>
   (\<exists>g. GetByID demo_Unmarshal ''id-1''
          (snd (Add demo_Marshal demo_Unmarshal ''id-1'' None cafeFeed emptyStore)) = Inr g \<and>
     ID g = ''id-1'' \<and> Title g = ''caf'' @ [CHR 0xC3, CHR 0xA9] \<and>
     Description g = ''An example feed'' \<and> URL g = ''http://example.org/atom'' \<and>
     ImageURL g = '''' \<and> Category g = ''Examples'')"
proof -
  have fresh: "''id-1'' \<notin> ID ` set defaultFeedsList"
    by (simp add: defaultFeedsList_def)
  from Add_GetByID_roundtrip [OF demo_reads stored_ok_emptyStore cafeFeed_back
      ListAll_emptyStore cafeFeed_new fresh cafe_add_pair]
    demo_reads cafeFeed_back
  show ?thesis by (simp add: cafeFeed_def exampleFeed_def)
qed

subsection \<open>C9: a failing \<open>Add\<close> writes nothing\<close>

text \<open>
  Claim C9. Whenever \<open>Add\<close> returns an error (the bucket is missing, the stored value
  is corrupted, the list cannot be serialised, the write fails), the store is as it was
  before the call. In every case the store after the call is either the store before it,
  or the store before it with the one value under the key replaced by the serialised new
  list, and then the call has succeeded.
\<close>

theorem Add_error_atomic:
  assumes "Add m u uid po f db = (r, db')"
  shows "(\<forall>e. r = Inl e \<longrightarrow> db' = db) \<and>
    (db' = db \<or>
     (\<exists>s b raw. r = Inr uid \<and> listStored u db = Inr s \<and> db feedListBucket = Some b \<and>
        m (elems s @ [f\<lparr>ID := uid\<rparr>]) = Inr raw \<and>
        db' = db(feedListBucket \<mapsto> b(allFeedsBucketKey \<mapsto> raw))))"
  using assms by (cases rule: Add_cases) simp_all

theorem Add_error_atomic_witness:
  "fst (Add demo_Marshal demo_Unmarshal ''id-1'' (Some (ExternalError ''disk full''))
      exampleFeed emptyStore) = Inl (ExternalError ''disk full'') \<and>
   snd (Add demo_Marshal demo_Unmarshal ''id-1'' (Some (ExternalError ''disk full''))
      exampleFeed emptyStore) = emptyStore"
proof -
  let ?r = "Add demo_Marshal demo_Unmarshal ''id-1'' (Some (ExternalError ''disk full''))
      exampleFeed emptyStore"
  have "?r = (Inl (ExternalError ''disk full''), snd ?r)"
    using first_add_fails by (simp add: prod_eq_iff)
  from Add_error_atomic [OF this] first_add_fails show ?thesis by simp
qed

subsection \<open>C10: a stored value of length zero\<close>

text \<open>
  Claim C10. When the bucket exists and the value under the key is present and of
  length zero, \<open>listStored\<close> returns the empty list and no error, as it does when the
  value is absent, and \<open>ListAll\<close> returns the hard-coded list. This holds whatever the
  serialiser makes of the empty input: it is not called.
\<close>

theorem zero_length_value_is_empty_list:
  assumes "db feedListBucket = Some b"
    and "b allFeedsBucketKey = Some []"
  shows "listStored u db = Inr (Slice []) \<and> ListAll u db = Inr defaultFeedsList \<and>
    listStored u db = listStored u (db(feedListBucket \<mapsto> b(allFeedsBucketKey := None)))"
proof -
  from assms have "listStored u db = Inr (Slice [])"
    by (simp add: listStored_bucket Get_def)
  moreover have "listStored u (db(feedListBucket \<mapsto> b(allFeedsBucketKey := None))) = Inr (Slice [])"
    by (simp add: listStored_bucket [where b = "b(allFeedsBucketKey := None)"] Get_def)
  ultimately show ?thesis by (simp add: ListAll_Inr)
qed

theorem zero_length_value_is_empty_list_witness:
  "demo_Unmarshal [] = None \<and>
   listStored demo_Unmarshal zeroLengthStore = Inr (Slice []) \<and>
   ListAll demo_Unmarshal zeroLengthStore = Inr defaultFeedsList"
  using zero_length_value_is_empty_list [where db = zeroLengthStore and u = demo_Unmarshal
      and b = "Map.empty(allFeedsBucketKey \<mapsto> [])"]
  by (simp add: zeroLengthStore_bucket demo_rejects_empty)

end
